theory Spec2Isabelle
  imports Main "HOL-Library.Log_Nat"
begin

section \<open>Python values used by \<open>video_parser.py\<close>\<close>

subsection \<open>Exceptions\<close>

text \<open>
  Every exception the parser can raise is a value. \<open>External\<close> stands for whatever
  the detection model, \<open>preds_from_torch_results\<close> or the \<open>BBox\<close> constructor raise;
  the strings are the exception messages.
\<close>

datatype error =
    ZeroDivisionError
  | OverflowError
  | ValueError
  | KeyError string
  | IndexError
  | TypeError string
  | External string

definition ebind :: "error + 'a \<Rightarrow> ('a \<Rightarrow> error + 'b) \<Rightarrow> error + 'b" where
  "ebind m f = (case m of Inl e \<Rightarrow> Inl e | Inr x \<Rightarrow> f x)"

subsection \<open>Floats\<close>

text \<open>
  A Python \<open>float\<close> is an IEEE 754 binary64 number. A finite one is the rational it
  denotes; the two zeros are identified (Python's \<open>==\<close> does the same).
  \<open>round64\<close> is rounding to nearest, ties to even, with 53 bits of precision, the
  least exponent \<open>-1074\<close> and overflow to infinity from \<open>2 ^ 1024\<close>.
\<close>

datatype pyfloat = Finite rat | PInf | NInf | NaN

definition ilog2 :: "rat \<Rightarrow> int" where
  \<comment> \<open>\<open>\<lfloor>log\<^sub>2 q\<rfloor>\<close> for \<open>0 < q\<close>\<close>
  "ilog2 q = (if 1 \<le> q then int (floorlog 2 (nat \<lfloor>q\<rfloor>)) - 1
              else - int (floorlog 2 (nat (\<lceil>1 / q\<rceil> - 1))))"

definition rne :: "rat \<Rightarrow> int" where
  "rne q = (let f = \<lfloor>q\<rfloor>; d = q - of_int f
            in if d < 1 / 2 then f else if 1 / 2 < d then f + 1
               else if even f then f else f + 1)"

definition round64 :: "rat \<Rightarrow> pyfloat" where
  "round64 q = (if q = 0 then Finite 0 else
     (let e = max (ilog2 \<bar>q\<bar> - 52) (- 1074);
          r = of_int (rne (q / 2 powi e)) * 2 powi e
      in if of_int (2 ^ 1024) \<le> r then PInf
         else if r \<le> - of_int (2 ^ 1024) then NInf else Finite r))"

definition float_sgn :: "pyfloat \<Rightarrow> int" where
  "float_sgn a = (case a of Finite x \<Rightarrow> \<lfloor>sgn x\<rfloor> | PInf \<Rightarrow> 1 | NInf \<Rightarrow> - 1 | NaN \<Rightarrow> 0)"

definition signed_inf :: "int \<Rightarrow> pyfloat" where
  "signed_inf s = (if s = 0 then NaN else if 0 < s then PInf else NInf)"

definition float_mul :: "pyfloat \<Rightarrow> pyfloat \<Rightarrow> pyfloat" where
  "float_mul a b = (case (a, b) of
       (Finite x, Finite y) \<Rightarrow> round64 (x * y)
     | (NaN, _) \<Rightarrow> NaN
     | (_, NaN) \<Rightarrow> NaN
     | _ \<Rightarrow> signed_inf (float_sgn a * float_sgn b))"

definition float_quot :: "pyfloat \<Rightarrow> pyfloat \<Rightarrow> pyfloat" where
  \<comment> \<open>the quotient of the hardware, taken only when the divisor is not zero\<close>
  "float_quot a b = (case (a, b) of
       (Finite x, Finite y) \<Rightarrow> round64 (x / y)
     | (NaN, _) \<Rightarrow> NaN
     | (_, NaN) \<Rightarrow> NaN
     | (Finite x, _) \<Rightarrow> Finite 0
     | (_, Finite y) \<Rightarrow> signed_inf (float_sgn a * float_sgn b)
     | _ \<Rightarrow> NaN)"

definition float_add :: "pyfloat \<Rightarrow> pyfloat \<Rightarrow> pyfloat" where
  "float_add a b = (case (a, b) of
       (Finite x, Finite y) \<Rightarrow> round64 (x + y)
     | (NaN, _) \<Rightarrow> NaN
     | (_, NaN) \<Rightarrow> NaN
     | (Finite x, _) \<Rightarrow> b
     | (_, Finite y) \<Rightarrow> a
     | _ \<Rightarrow> (if a = b then a else NaN))"

definition float_of_nat :: "nat \<Rightarrow> error + pyfloat" where
  \<comment> \<open>the conversion of a non-negative \<open>int\<close> operand: correctly rounded,
      \<open>OverflowError\<close> when the integer is too large\<close>
  "float_of_nat n = (case round64 (of_nat n) of PInf \<Rightarrow> Inl OverflowError | f \<Rightarrow> Inr f)"

definition float_truediv :: "pyfloat \<Rightarrow> pyfloat \<Rightarrow> error + pyfloat" where
  \<comment> \<open>\<open>a / b\<close> on two floats\<close>
  "float_truediv a b = (if b = Finite 0 then Inl ZeroDivisionError else Inr (float_quot a b))"

definition int_mul_float :: "nat \<Rightarrow> pyfloat \<Rightarrow> error + pyfloat" where
  \<comment> \<open>\<open>n * f\<close> with \<open>n\<close> an \<open>int\<close> (here always a length or a count)\<close>
  "int_mul_float n f = ebind (float_of_nat n) (\<lambda>a. Inr (float_mul a f))"

definition float_div_int :: "pyfloat \<Rightarrow> nat \<Rightarrow> error + pyfloat" where
  \<comment> \<open>\<open>f / n\<close> with \<open>n\<close> an \<open>int\<close>\<close>
  "float_div_int f n = ebind (float_of_nat n) (\<lambda>b. float_truediv f b)"

definition int_div_float :: "nat \<Rightarrow> pyfloat \<Rightarrow> error + pyfloat" where
  \<comment> \<open>\<open>n / f\<close> with \<open>n\<close> an \<open>int\<close>\<close>
  "int_div_float n f = ebind (float_of_nat n) (\<lambda>a. float_truediv a f)"

section \<open>The interaction statistics reducer\<close>

subsection \<open>Library functions the reducer calls\<close>

text \<open>
  \<open>itertools.groupby\<close> without a key function: the maximal blocks of consecutive
  equal elements, each with the element it repeats.
\<close>

function groupby :: "'a list \<Rightarrow> ('a \<times> 'a list) list" where
  "groupby [] = []"
| "groupby (x # xs) =
     (x, x # takeWhile (\<lambda>y. y = x) xs) # groupby (dropWhile (\<lambda>y. y = x) xs)"
  by pat_completeness auto
termination
  by (relation "measure length") (auto simp: length_dropWhile_le less_Suc_eq_le)

text \<open>
  Python orders lists lexicographically: the first position where two lists differ
  decides, and a proper prefix is smaller. \<open>False < True\<close> on the elements.
\<close>

fun list_less :: "bool list \<Rightarrow> bool list \<Rightarrow> bool" where
  "list_less [] [] = False"
| "list_less [] (y # ys) = True"
| "list_less (x # xs) [] = False"
| "list_less (x # xs) (y # ys) = (if x = y then list_less xs ys else x < y)"

text \<open>
  \<open>max\<close> and \<open>min\<close> over a list of lists keep the first extremal element and raise
  \<open>ValueError\<close> on an empty argument.
\<close>

definition py_max :: "bool list list \<Rightarrow> error + bool list" where
  "py_max gs = (case gs of [] \<Rightarrow> Inl ValueError
     | g # rest \<Rightarrow> Inr (foldl (\<lambda>m item. if list_less m item then item else m) g rest))"

definition py_min :: "bool list list \<Rightarrow> error + bool list" where
  "py_min gs = (case gs of [] \<Rightarrow> Inl ValueError
     | g # rest \<Rightarrow> Inr (foldl (\<lambda>m item. if list_less item m then item else m) g rest))"

subsection \<open>\<open>VideoParser.interactions_statistics\<close>\<close>

text \<open>
  A field of a statistics entry holds the type object it is initialised with
  (\<open>int\<close> or \<open>float\<close>), \<open>None\<close>, or a value.
\<close>

datatype 'a field = IntType | FloatType | PyNone | Val 'a

record statistics_entry =
  n_interactions :: "nat field"
  total_time :: "pyfloat field"
  min_time :: "pyfloat field"
  max_time :: "pyfloat field"
  mean_time :: "pyfloat field"

definition initial_entry :: statistics_entry where
  "initial_entry = \<lparr>n_interactions = IntType, total_time = FloatType, min_time = FloatType,
     max_time = FloatType, mean_time = FloatType\<rparr>"

definition initial_statistics :: "string \<rightharpoonup> statistics_entry" where
  "initial_statistics =
     [''td_ct'' \<mapsto> initial_entry, ''td_pm'' \<mapsto> initial_entry, ''ct_pm'' \<mapsto> initial_entry]"

text \<open>
  The inner loop over the groups: \<open>count\<close> is the number of frames consumed,
  \<open>idxs\<close> the start and end index of each block of \<open>True\<close>, and
  \<open>groups_of_interaction\<close> the blocks themselves. The test \<open>k == 1\<close> holds exactly
  for the key \<open>True\<close>.
\<close>

fun collect_groups ::
  "(bool \<times> bool list) list \<Rightarrow> nat \<Rightarrow> (nat \<times> nat) list \<Rightarrow> bool list list
     \<Rightarrow> nat \<times> (nat \<times> nat) list \<times> bool list list" where
  "collect_groups [] count idxs groups_of_interaction = (count, idxs, groups_of_interaction)"
| "collect_groups ((k, grp) # groups) count idxs groups_of_interaction =
     (let count' = count + length grp
      in if k then
           collect_groups groups count'
             (idxs @ [(count' - length grp, count')]) (groups_of_interaction @ [grp])
         else collect_groups groups count' idxs groups_of_interaction)"

text \<open>The body of the loop over the items: the five metrics of one series.\<close>

definition interaction_metrics :: "pyfloat \<Rightarrow> bool list \<Rightarrow> error + statistics_entry" where
  "interaction_metrics frame_time interaction =
     (let groups = groupby interaction;
          groups_of_interaction = snd (snd (collect_groups groups 0 [] []))
      in if groups_of_interaction \<noteq> [] then
           ebind (int_mul_float (count_list interaction True) frame_time) (\<lambda>total.
           ebind (float_div_int total (length groups_of_interaction)) (\<lambda>mean.
           ebind (py_max groups_of_interaction) (\<lambda>longest.
           ebind (int_mul_float (length longest) frame_time) (\<lambda>mx.
           ebind (py_min groups_of_interaction) (\<lambda>shortest.
           ebind (int_mul_float (length shortest) frame_time) (\<lambda>mn.
             Inr \<lparr>n_interactions = Val (length groups_of_interaction), total_time = Val total,
                  min_time = Val mn, max_time = Val mx, mean_time = Val mean\<rparr>))))))
         else
           Inr \<lparr>n_interactions = PyNone, total_time = PyNone, min_time = PyNone,
                max_time = PyNone, mean_time = PyNone\<rparr>)"

text \<open>
  The loop over \<open>interactions.items()\<close>, in insertion order. The metrics of a series
  are computed first; storing them looks \<open>statistics[key]\<close> up, which raises
  \<open>KeyError\<close> for a key the dictionary was not initialised with.
\<close>

fun statistics_loop ::
  "pyfloat \<Rightarrow> (string \<times> bool list) list \<Rightarrow> (string \<rightharpoonup> statistics_entry)
     \<Rightarrow> error + (string \<rightharpoonup> statistics_entry)" where
  "statistics_loop frame_time [] statistics = Inr statistics"
| "statistics_loop frame_time ((key, interaction) # items) statistics =
     ebind (interaction_metrics frame_time interaction) (\<lambda>entry.
       case statistics key of
         None \<Rightarrow> Inl (KeyError key)
       | Some _ \<Rightarrow> statistics_loop frame_time items (statistics(key \<mapsto> entry)))"

definition interactions_statistics ::
  "pyfloat \<Rightarrow> (string \<times> bool list) list \<Rightarrow> error + (string \<rightharpoonup> statistics_entry)" where
  "interactions_statistics fps interactions =
     ebind (int_div_float 1 fps) (\<lambda>frame_time.
       statistics_loop frame_time interactions initial_statistics)"

section \<open>The detection table and the tables derived from it\<close>

subsection \<open>Bounding boxes\<close>

text \<open>
  Modelled from the spec: the class \<open>BBox\<close> of \<open>therapy_aid_tool.model_inference\<close>
  (its constructor, its truth value and its method \<open>niou\<close>), which is not part of
  the sources at hand. A box is the distinguished absent value or four corner
  coordinates in min/max form with a confidence and a class identifier. The spec's
  formula is read over exact rationals.
\<close>

datatype BBox =
    Absent
  | Box (x_min: rat) (y_min: rat) (x_max: rat) (y_max: rat) (conf: rat) (cls: nat)

text \<open>
  Modelled from the spec: \<open>is_present\<close>, the truth value of a box, is true exactly
  when the box is not the absent value.
\<close>

definition is_present :: "BBox \<Rightarrow> bool" where
  "is_present b = (case b of Absent \<Rightarrow> False | Box _ _ _ _ _ _ \<Rightarrow> True)"

text \<open>
  Modelled from the spec: \<open>niou(A, B) = intersection_area(A, B) / min(area(A), area(B))\<close>,
  clamped to \<open>[0, 1]\<close>, and \<open>0\<close> when a box is absent or an area is zero.
\<close>

definition area :: "BBox \<Rightarrow> rat" where
  "area b = (case b of Absent \<Rightarrow> 0
     | Box x1 y1 x2 y2 _ _ \<Rightarrow> (x2 - x1) * (y2 - y1))"

definition intersection_area :: "BBox \<Rightarrow> BBox \<Rightarrow> rat" where
  "intersection_area a b = (case (a, b) of
       (Box ax1 ay1 ax2 ay2 _ _, Box bx1 by1 bx2 by2 _ _) \<Rightarrow>
         max 0 (min ax2 bx2 - max ax1 bx1) * max 0 (min ay2 by2 - max ay1 by1)
     | _ \<Rightarrow> 0)"

definition niou :: "BBox \<Rightarrow> BBox \<Rightarrow> rat" where
  "niou a b =
     (if \<not> is_present a \<or> \<not> is_present b \<or> area a = 0 \<or> area b = 0 then 0
      else max 0 (min 1 (intersection_area a b / min (area a) (area b))))"

subsection \<open>Dictionaries with a default\<close>

text \<open>
  A \<open>defaultdict(list)\<close>: reading a key that was never written gives the empty list.
\<close>

type_synonym 'a table = "string \<rightharpoonup> 'a list"

definition dd_get :: "'a table \<Rightarrow> string \<Rightarrow> 'a list" where
  "dd_get d k = (case d k of None \<Rightarrow> [] | Some v \<Rightarrow> v)"

definition dd_append :: "'a table \<Rightarrow> string \<Rightarrow> 'a \<Rightarrow> 'a table" where
  "dd_append d k v = d(k \<mapsto> dd_get d k @ [v])"

definition get :: "'a list \<Rightarrow> nat \<Rightarrow> error + 'a" where
  \<comment> \<open>\<open>xs[i]\<close> for an index that is not negative\<close>
  "get xs i = (if i < length xs then Inr (xs ! i) else Inl IndexError)"

subsection \<open>\<open>VideoParser.bboxes\<close>\<close>

text \<open>
  The collaborators of the collector, each of which may raise: \<open>model\<close> is the
  loaded detection model applied to the frame with its channels reversed,
  \<open>preds_from_torch_results\<close> turns its output into the raw predictions, and
  \<open>mk_bbox\<close> is the constructor \<open>BBox(...)\<close>.
\<close>

record ('frame, 'inference, 'raw) detector =
  model :: "'frame \<Rightarrow> error + 'inference"
  preds_from_torch_results :: "'inference \<Rightarrow> int \<Rightarrow> error + 'raw list"
  mk_bbox :: "'raw \<Rightarrow> error + BBox"

text \<open>
  The capture is the list of frames still to be read. \<open>cap.read()\<close> returns the next
  frame, or \<open>None\<close> once the source is exhausted.
\<close>

definition read :: "'frame list \<Rightarrow> 'frame option \<times> 'frame list" where
  "read cap = (case cap of [] \<Rightarrow> (None, []) | frame # rest \<Rightarrow> (Some frame, rest))"

definition none_not_subscriptable :: string where
  "none_not_subscriptable = CHR 0x27 # ''NoneType' object is not subscriptable''"

text \<open>
  One pass of the loop body: read a frame, subscript it (a \<open>TypeError\<close> when the read
  gave \<open>None\<close>), run the model, and append one box to each of the six sequences.
\<close>

definition append_pred ::
  "('frame, 'inference, 'raw) detector \<Rightarrow> 'raw list \<Rightarrow> string \<Rightarrow> nat \<Rightarrow> BBox table
     \<Rightarrow> error + BBox table" where
  "append_pred d preds key i bbs =
     ebind (get preds i) (\<lambda>p. ebind (mk_bbox d p) (\<lambda>b. Inr (dd_append bbs key b)))"

definition bboxes_step ::
  "('frame, 'inference, 'raw) detector \<Rightarrow> int \<Rightarrow> 'frame list \<Rightarrow> BBox table
     \<Rightarrow> error + ('frame list \<times> BBox table)" where
  "bboxes_step d n_classes cap bbs =
     (case read cap of
        (None, cap') \<Rightarrow> Inl (TypeError none_not_subscriptable)
      | (Some frame, cap') \<Rightarrow>
          ebind (model d frame) (\<lambda>inference.
          ebind (preds_from_torch_results d inference n_classes) (\<lambda>preds.
          ebind (append_pred d preds ''td'' 0 bbs) (\<lambda>bbs.
          ebind (append_pred d preds ''ct'' 1 bbs) (\<lambda>bbs.
          ebind (append_pred d preds ''pm'' 2 bbs) (\<lambda>bbs.
          ebind (append_pred d preds ''td_ct_interaction'' 3 bbs) (\<lambda>bbs.
          ebind (append_pred d preds ''td_pm_interaction'' 4 bbs) (\<lambda>bbs.
          ebind (append_pred d preds ''ct_pm_interaction'' 5 bbs) (\<lambda>bbs.
            Inr (cap', bbs))))))))))"

fun bboxes_loop ::
  "('frame, 'inference, 'raw) detector \<Rightarrow> int \<Rightarrow> nat \<Rightarrow> 'frame list \<Rightarrow> BBox table
     \<Rightarrow> error + BBox table" where
  "bboxes_loop d n_classes 0 cap bbs = Inr bbs"
| "bboxes_loop d n_classes (Suc n) cap bbs =
     ebind (bboxes_step d n_classes cap bbs) (\<lambda>(cap', bbs').
       bboxes_loop d n_classes n cap' bbs')"

text \<open>
  \<open>range(total_frames)\<close> runs \<open>total_frames\<close> times, and not at all for a negative
  count.
\<close>

definition bboxes ::
  "('frame, 'inference, 'raw) detector \<Rightarrow> int \<Rightarrow> int \<Rightarrow> 'frame list \<Rightarrow> error + BBox table" where
  "bboxes d n_classes total_frames cap = bboxes_loop d n_classes (nat total_frames) cap Map.empty"

subsection \<open>\<open>VideoParser.closeness\<close> and \<open>VideoParser.interactions\<close>\<close>

fun closeness_loop :: "BBox table \<Rightarrow> nat list \<Rightarrow> rat table \<Rightarrow> error + rat table" where
  "closeness_loop bbs [] closeness = Inr closeness"
| "closeness_loop bbs (idx # idxs) closeness =
     ebind (get (dd_get bbs ''td'') idx) (\<lambda>td.
     ebind (get (dd_get bbs ''ct'') idx) (\<lambda>ct.
     ebind (get (dd_get bbs ''td'') idx) (\<lambda>td'.
     ebind (get (dd_get bbs ''pm'') idx) (\<lambda>pm.
     ebind (get (dd_get bbs ''ct'') idx) (\<lambda>ct'.
     ebind (get (dd_get bbs ''pm'') idx) (\<lambda>pm'.
       closeness_loop bbs idxs
         (dd_append (dd_append (dd_append closeness
            ''td_ct'' (niou td ct)) ''td_pm'' (niou td' pm)) ''ct_pm'' (niou ct' pm'))))))))"

definition closeness :: "BBox table \<Rightarrow> int \<Rightarrow> error + rat table" where
  "closeness bbs total_frames = closeness_loop bbs [0 ..< nat total_frames] Map.empty"

fun interactions_loop :: "BBox table \<Rightarrow> nat list \<Rightarrow> bool table \<Rightarrow> error + bool table" where
  "interactions_loop bbs [] interactions = Inr interactions"
| "interactions_loop bbs (idx # idxs) interactions =
     ebind (get (dd_get bbs ''td_ct_interaction'') idx) (\<lambda>b1.
     ebind (get (dd_get bbs ''td_pm_interaction'') idx) (\<lambda>b2.
     ebind (get (dd_get bbs ''ct_pm_interaction'') idx) (\<lambda>b3.
       interactions_loop bbs idxs
         (dd_append (dd_append (dd_append interactions
            ''td_ct'' (if is_present b1 then True else False))
            ''td_pm'' (if is_present b2 then True else False))
            ''ct_pm'' (if is_present b3 then True else False)))))"

definition interactions :: "BBox table \<Rightarrow> int \<Rightarrow> error + bool table" where
  "interactions bbs total_frames = interactions_loop bbs [0 ..< nat total_frames] Map.empty"

section \<open>Notions of the specification\<close>

text \<open>
  The lengths of the maximal runs of \<open>True\<close> in a series, in order of occurrence:
  a scan that counts the current run and emits the count when the run ends, at a
  \<open>False\<close> or at the end of the series.
\<close>

fun run_lengths :: "nat \<Rightarrow> bool list \<Rightarrow> nat list" where
  "run_lengths c [] = (if 0 < c then [c] else [])"
| "run_lengths c (x # xs) =
     (if x then run_lengths (Suc c) xs
      else if 0 < c then c # run_lengths 0 xs else run_lengths 0 xs)"

definition true_runs :: "bool list \<Rightarrow> nat list" where
  "true_runs xs = run_lengths 0 xs"

text \<open>The three pair keys, and the entry whose five fields are all \<open>None\<close>.\<close>

definition pair_keys :: "string set" where
  "pair_keys = {''td_ct'', ''td_pm'', ''ct_pm''}"

definition none_entry :: statistics_entry where
  "none_entry = \<lparr>n_interactions = PyNone, total_time = PyNone, min_time = PyNone,
     max_time = PyNone, mean_time = PyNone\<rparr>"

text \<open>The entry a call returns for a key, if the call returns.\<close>

definition entry_of :: "error + (string \<rightharpoonup> statistics_entry) \<Rightarrow> string \<Rightarrow> statistics_entry option" where
  "entry_of result key = (case result of Inl e \<Rightarrow> None | Inr statistics \<Rightarrow> statistics key)"

text \<open>
  The sum over the runs of (run length times frame duration), as \<open>sum\<close> computes
  it: from \<open>0\<close>, adding the products from left to right.
\<close>

definition sum_of_run_durations :: "pyfloat \<Rightarrow> nat list \<Rightarrow> error + pyfloat" where
  "sum_of_run_durations frame_time runs =
     foldl (\<lambda>acc n. ebind acc (\<lambda>a. ebind (int_mul_float n frame_time) (\<lambda>d. Inr (float_add a d))))
       (Inr (Finite 0)) runs"

text \<open>The six class keys of the detection table.\<close>

definition class_keys :: "string set" where
  "class_keys = {''td'', ''ct'', ''pm'', ''td_ct_interaction'', ''td_pm_interaction'',
     ''ct_pm_interaction''}"

text \<open>
  The collaborators succeed on a frame: the model and \<open>preds_from_torch_results\<close>
  return, there are at least six raw predictions, and the first six convert to boxes.
\<close>

definition frame_ok :: "('frame, 'inference, 'raw) detector \<Rightarrow> int \<Rightarrow> 'frame \<Rightarrow> bool" where
  "frame_ok d n_classes frame =
     (case model d frame of Inl e \<Rightarrow> False
      | Inr inference \<Rightarrow>
          (case preds_from_torch_results d inference n_classes of Inl e \<Rightarrow> False
           | Inr preds \<Rightarrow> 6 \<le> length preds \<and>
               list_all (\<lambda>p. case mk_bbox d p of Inl e \<Rightarrow> False | Inr b \<Rightarrow> True) (take 6 preds)))"

text \<open>
  Changing confidences only: \<open>with_conf f\<close> replaces the confidence of every present
  box, and \<open>map_table\<close> applies a function to every entry of a table.
\<close>

definition with_conf :: "(BBox \<Rightarrow> rat) \<Rightarrow> BBox \<Rightarrow> BBox" where
  "with_conf f b = (case b of Absent \<Rightarrow> Absent
     | Box x1 y1 x2 y2 c k \<Rightarrow> Box x1 y1 x2 y2 (f b) k)"

definition map_table :: "('a \<Rightarrow> 'b) \<Rightarrow> 'a table \<Rightarrow> 'b table" where
  "map_table f t = (\<lambda>key. map_option (map f) (t key))"

text \<open>The sequence a call returns for a key, if the call returns.\<close>

definition column_of :: "error + 'a table \<Rightarrow> string \<Rightarrow> 'a list option" where
  "column_of result key = (case result of Inl e \<Rightarrow> None | Inr t \<Rightarrow> Some (dd_get t key))"

text \<open>
  A detector for concrete runs: frames are numbers, and every frame shows the toddler,
  the caretaker and their interaction.
\<close>

definition example_detector :: "(nat, nat, BBox) detector" where
  "example_detector = \<lparr>model = (\<lambda>frame. Inr frame),
     preds_from_torch_results = (\<lambda>inference n_classes.
        Inr [Box 0 0 10 10 (9 / 10) 0, Box 5 5 15 15 (8 / 10) 1, Absent,
             Box 4 4 11 11 (7 / 10) 3, Absent, Absent]),
     mk_bbox = (\<lambda>raw. Inr raw)\<rparr>"

text \<open>The table the example detector builds from two frames.\<close>

definition example_table :: "BBox table" where
  "example_table =
     [''td'' \<mapsto> [Box 0 0 10 10 (9 / 10) 0, Box 0 0 10 10 (9 / 10) 0],
      ''ct'' \<mapsto> [Box 5 5 15 15 (8 / 10) 1, Box 5 5 15 15 (8 / 10) 1],
      ''pm'' \<mapsto> [Absent, Absent],
      ''td_ct_interaction'' \<mapsto> [Box 4 4 11 11 (7 / 10) 3, Box 4 4 11 11 (7 / 10) 3],
      ''td_pm_interaction'' \<mapsto> [Absent, Absent],
      ''ct_pm_interaction'' \<mapsto> [Absent, Absent]]"

section \<open>Auxiliary lemmas\<close>

subsection \<open>Runs and groups\<close>

lemma collect_groups_groups:
  "snd (snd (collect_groups gs c idxs acc)) = acc @ map snd (filter fst gs)"
  by (induction gs arbitrary: c idxs acc) (auto simp: Let_def)

lemma run_lengths_open:
  "0 < c \<Longrightarrow> run_lengths c xs =
     (c + length (takeWhile (\<lambda>y. y = True) xs)) # run_lengths 0 (dropWhile (\<lambda>y. y = True) xs)"
  by (induction xs arbitrary: c) auto

lemma run_lengths_skip:
  "run_lengths 0 (dropWhile Not xs) = run_lengths 0 xs"
  by (induction xs) auto

lemma groupby_run_lengths:
  "map length (map snd (filter fst (groupby xs))) = run_lengths 0 xs"
proof (induction xs rule: groupby.induct)
  case 1
  show ?case by simp
next
  case (2 x xs)
  show ?case
  proof (cases x)
    case True
    with 2 show ?thesis by (simp add: run_lengths_open)
  next
    case False
    with 2 show ?thesis by (simp add: run_lengths_skip)
  qed
qed

lemma groupby_all_true:
  "g \<in> set (map snd (filter fst (groupby xs))) \<Longrightarrow> g = replicate (length g) True"
proof (induction xs rule: groupby.induct)
  case 1
  then show ?case by simp
next
  case (2 x xs)
  have tw: "takeWhile (\<lambda>y. y = True) xs = replicate (length (takeWhile (\<lambda>y. y = True) xs)) True"
    by (rule replicate_length_same[symmetric]) (auto dest: set_takeWhileD)
  from 2 show ?case
    using tw by (cases x) auto
qed

lemma list_less_replicate:
  "list_less (replicate m True) (replicate n True) \<longleftrightarrow> m < n"
proof (induction m arbitrary: n)
  case 0
  show ?case by (cases n) auto
next
  case (Suc m)
  then show ?case by (cases n) auto
qed

lemma sum_run_lengths: "sum_list (run_lengths c xs) = c + count_list xs True"
  by (induction xs arbitrary: c) auto

lemma run_lengths_empty: "run_lengths c xs = [] \<longleftrightarrow> c = 0 \<and> True \<notin> set xs"
  by (induction xs arbitrary: c) auto

lemma run_lengths_pos: "n \<in> set (run_lengths c xs) \<Longrightarrow> 0 < n"
  by (induction xs arbitrary: c) (auto split: if_splits)

lemma foldl_max_length:
  assumes "\<forall>g \<in> set (g0 # gs). g = replicate (length g) True"
  shows "length (foldl (\<lambda>m item. if list_less m item then item else m) g0 gs)
           = Max (set (map length (g0 # gs)))"
  using assms
proof (induction gs arbitrary: g0)
  case Nil
  show ?case by simp
next
  case (Cons a gs)
  have a: "a = replicate (length a) True" and g0: "g0 = replicate (length g0) True"
    using Cons.prems by auto
  have lt: "list_less g0 a \<longleftrightarrow> length g0 < length a"
    using list_less_replicate[of "length g0" "length a"] a g0 by simp
  show ?case
  proof (cases "length g0 < length a")
    case True
    have "length (foldl (\<lambda>m item. if list_less m item then item else m) a gs)
            = Max (set (map length (a # gs)))"
      using Cons.IH[of a] Cons.prems by simp
    moreover have "Max (set (map length (g0 # a # gs))) = Max (set (map length (a # gs)))"
    proof -
      have "length a \<le> Max (set (map length (a # gs)))"
        by (rule Max_ge) auto
      then have le: "length g0 \<le> Max (set (map length (a # gs)))"
        using True by linarith
      have "Max (set (map length (g0 # a # gs)))
              = max (length g0) (Max (set (map length (a # gs))))"
        by simp
      then show ?thesis
        by (simp only: max_absorb2[OF le])
    qed
    ultimately show ?thesis using True lt by simp
  next
    case False
    have "length (foldl (\<lambda>m item. if list_less m item then item else m) g0 gs)
            = Max (set (map length (g0 # gs)))"
      using Cons.IH[of g0] Cons.prems by simp
    moreover have "Max (set (map length (g0 # a # gs))) = Max (set (map length (g0 # gs)))"
    proof -
      have "length g0 \<le> Max (set (map length (g0 # gs)))"
        by (rule Max_ge) auto
      then have le: "length a \<le> Max (set (map length (g0 # gs)))"
        using False by linarith
      have "Max (set (map length (g0 # a # gs)))
              = max (length a) (Max (set (map length (g0 # gs))))"
        by (simp add: insert_commute)
      then show ?thesis
        by (simp only: max_absorb2[OF le])
    qed
    ultimately show ?thesis using False lt by simp
  qed
qed

lemma rne_upper: "of_int (rne x) \<le> x + 1"
proof -
  have fl: "of_int \<lfloor>x\<rfloor> \<le> x" by simp
  have "rne x = \<lfloor>x\<rfloor> \<or> rne x = \<lfloor>x\<rfloor> + 1"
    by (simp add: rne_def Let_def)
  then have "(of_int (rne x) :: rat) \<le> of_int \<lfloor>x\<rfloor> + 1"
    by (elim disjE) simp_all
  with fl show ?thesis by linarith
qed

lemma rne_lower: "\<lfloor>x\<rfloor> \<le> rne x"
  by (simp add: rne_def Let_def)

lemma ilog2_of_nat: "0 < n \<Longrightarrow> ilog2 (of_nat n) = int (floorlog 2 n) - 1"
  by (simp add: ilog2_def)

lemma round64_of_nat_cases:
  assumes "0 < n"
  shows "round64 (of_nat n) = PInf \<or> (\<exists>r. 0 < r \<and> round64 (of_nat n) = Finite r)"
proof -
  define q :: rat where "q = of_nat n"
  define e where "e = max (ilog2 \<bar>q\<bar> - 52) (- 1074)"
  define r :: rat where "r = of_int (rne (q / 2 powi e)) * 2 powi e"
  have q1: "1 \<le> q" using assms by (simp add: q_def)
  have il: "ilog2 \<bar>q\<bar> = int (floorlog 2 n) - 1"
    using ilog2_of_nat[OF assms] by (simp add: q_def)
  have fl: "0 < floorlog 2 n" using assms by (simp add: floorlog_def)
  have "e \<le> int (floorlog 2 n - 1)" using fl by (simp add: e_def il)
  then have "(2::rat) powi e \<le> 2 powi int (floorlog 2 n - 1)"
    by (intro power_int_increasing) auto
  also have "\<dots> = of_nat (2 ^ (floorlog 2 n - 1))" by simp
  also have "\<dots> \<le> of_nat n"
    using floorlog_bounds[of n 2] assms by (simp del: of_nat_power) 
  finally have pe: "(2::rat) powi e \<le> q" by (simp add: q_def)
  have p: "(0::rat) < 2 powi e" by simp
  have "1 \<le> q / 2 powi e" using pe p by (simp add: field_simps)
  then have "1 \<le> \<lfloor>q / 2 powi e\<rfloor>" by simp
  then have "1 \<le> rne (q / 2 powi e)" using rne_lower[of "q / 2 powi e"] by linarith
  then have "(0::rat) < of_int (rne (q / 2 powi e))" by simp
  then have rpos: "0 < r" unfolding r_def using p by (rule mult_pos_pos)
  have "q \<noteq> 0" using q1 by simp
  then have "round64 q = (if of_int (2 ^ 1024) \<le> r then PInf
         else if r \<le> - of_int (2 ^ 1024) then NInf else Finite r)"
    unfolding round64_def Let_def e_def r_def by simp
  moreover have "\<not> r \<le> - of_int (2 ^ 1024)" using rpos by simp
  ultimately show ?thesis using rpos unfolding q_def by auto
qed

lemma round64_nat_not_inf:
  assumes "n < 2 ^ 63"
  shows "round64 (of_nat n) \<noteq> PInf"
proof (cases "n = 0")
  case True
  then show ?thesis by (simp add: round64_def)
next
  case False
  define q :: rat where "q = of_nat n"
  define e where "e = max (ilog2 \<bar>q\<bar> - 52) (- 1074)"
  define r :: rat where "r = of_int (rne (q / 2 powi e)) * 2 powi e"
  have "floorlog 2 n \<le> 63"
    using assms by (simp add: floorlog_le_iff)
  then have "ilog2 \<bar>q\<bar> \<le> 62" using ilog2_of_nat[of n] False by (simp add: q_def)
  then have e10: "e \<le> 10" by (simp add: e_def)
  have p: "(0::rat) < 2 powi e" by simp
  have "(2::rat) powi e \<le> 2 powi 10"
    by (rule power_int_increasing) (use e10 in auto)
  then have pe: "(2::rat) powi e \<le> 1024" by simp
  have "r \<le> (q / 2 powi e + 1) * 2 powi e"
    unfolding r_def using rne_upper[of "q / 2 powi e"] p by (simp add: mult_right_mono)
  also have "\<dots> = q + 2 powi e" using p by (simp add: field_simps)
  also have "\<dots> \<le> of_nat (2 ^ 63) + 1024"
    using pe assms unfolding q_def by (intro add_mono) (simp_all del: of_nat_power of_nat_numeral)
  also have "\<dots> < of_int (2 ^ 1024)" by simp
  finally have "\<not> of_int (2 ^ 1024) \<le> r" by simp
  then show ?thesis
    using False unfolding round64_def Let_def q_def[symmetric] e_def[symmetric] r_def[symmetric]
    by (auto simp: q_def)
qed

lemma float_of_nat_ok: "n < 2 ^ 63 \<Longrightarrow> float_of_nat n = Inr (round64 (of_nat n))"
  using round64_nat_not_inf[of n] by (cases "round64 (of_nat n)") (auto simp: float_of_nat_def)

lemma float_of_nat_nonzero: "0 < n \<Longrightarrow> float_of_nat n \<noteq> Inr (Finite 0)"
  using round64_of_nat_cases[of n] by (auto simp: float_of_nat_def)

lemma float_div_int_no_zero_division:
  "0 < n \<Longrightarrow> float_div_int t n \<noteq> Inl ZeroDivisionError"
  using float_of_nat_nonzero[of n]
  by (auto simp: float_div_int_def ebind_def float_truediv_def float_of_nat_def
           split: sum.splits pyfloat.splits)

lemma int_mul_float_no_zero_division: "int_mul_float n f \<noteq> Inl ZeroDivisionError"
  by (auto simp: int_mul_float_def ebind_def float_of_nat_def split: sum.splits pyfloat.splits)

lemma foldl_min_length:
  assumes "\<forall>g \<in> set (g0 # gs). g = replicate (length g) True"
  shows "length (foldl (\<lambda>m item. if list_less item m then item else m) g0 gs)
           = Min (set (map length (g0 # gs)))"
  using assms
proof (induction gs arbitrary: g0)
  case Nil
  show ?case by simp
next
  case (Cons a gs)
  have a: "a = replicate (length a) True" and g0: "g0 = replicate (length g0) True"
    using Cons.prems by auto
  have lt: "list_less a g0 \<longleftrightarrow> length a < length g0"
    using list_less_replicate[of "length a" "length g0"] a g0 by simp
  show ?case
  proof (cases "length a < length g0")
    case True
    have "length (foldl (\<lambda>m item. if list_less item m then item else m) a gs)
            = Min (set (map length (a # gs)))"
      using Cons.IH[of a] Cons.prems by simp
    moreover have "Min (set (map length (g0 # a # gs))) = Min (set (map length (a # gs)))"
    proof -
      have "Min (set (map length (a # gs))) \<le> length a"
        by (rule Min_le) auto
      then have le: "Min (set (map length (a # gs))) \<le> length g0"
        using True by linarith
      have "Min (set (map length (g0 # a # gs)))
              = min (length g0) (Min (set (map length (a # gs))))"
        by simp
      then show ?thesis
        by (simp only: min_absorb2[OF le])
    qed
    ultimately show ?thesis using True lt by simp
  next
    case False
    have "length (foldl (\<lambda>m item. if list_less item m then item else m) g0 gs)
            = Min (set (map length (g0 # gs)))"
      using Cons.IH[of g0] Cons.prems by simp
    moreover have "Min (set (map length (g0 # a # gs))) = Min (set (map length (g0 # gs)))"
    proof -
      have "Min (set (map length (g0 # gs))) \<le> length g0"
        by (rule Min_le) auto
      then have le: "Min (set (map length (g0 # gs))) \<le> length a"
        using False by linarith
      have "Min (set (map length (g0 # a # gs)))
              = min (length a) (Min (set (map length (g0 # gs))))"
        by (simp add: insert_commute)
      then show ?thesis
        by (simp only: min_absorb2[OF le])
    qed
    ultimately show ?thesis using False lt by simp
  qed
qed

lemma py_max_length:
  assumes "gs \<noteq> []" "\<forall>g \<in> set gs. g = replicate (length g) True"
  shows "\<exists>g. py_max gs = Inr g \<and> length g = Max (set (map length gs))"
proof (cases gs)
  case Nil
  with assms show ?thesis by simp
next
  case (Cons g0 rest)
  then show ?thesis
    using foldl_max_length[of g0 rest] assms(2) by (simp add: py_max_def)
qed

lemma py_min_length:
  assumes "gs \<noteq> []" "\<forall>g \<in> set gs. g = replicate (length g) True"
  shows "\<exists>g. py_min gs = Inr g \<and> length g = Min (set (map length gs))"
proof (cases gs)
  case Nil
  with assms show ?thesis by simp
next
  case (Cons g0 rest)
  then show ?thesis
    using foldl_min_length[of g0 rest] assms(2) by (simp add: py_min_def)
qed

lemma length_le_sum_list: "\<forall>n \<in> set ns. Suc 0 \<le> n \<Longrightarrow> length ns \<le> sum_list ns"
  by (induction ns) auto

lemma true_runs_bounds:
  shows true_runs_count: "length (true_runs xs) \<le> length xs"
    and true_runs_member: "n \<in> set (true_runs xs) \<Longrightarrow> n \<le> length xs"
proof -
  have s: "sum_list (true_runs xs) \<le> length xs"
    using sum_run_lengths[of 0 xs] count_le_length[of xs True] by (simp add: true_runs_def)
  have "\<forall>n \<in> set (true_runs xs). Suc 0 \<le> n"
    using run_lengths_pos[of _ 0 xs] by (auto simp: true_runs_def Suc_le_eq)
  then have "length (true_runs xs) \<le> sum_list (true_runs xs)"
    by (rule length_le_sum_list)
  with s show "length (true_runs xs) \<le> length xs" by simp
  show "n \<le> length xs" if "n \<in> set (true_runs xs)"
    using member_le_sum_list[OF that] s by simp
qed

lemma dom_initial_statistics: "dom initial_statistics = pair_keys"
  by (auto simp: initial_statistics_def pair_keys_def)

lemma groups_of_interaction_eq:
  "snd (snd (collect_groups (groupby xs) 0 [] [])) = map snd (filter fst (groupby xs))"
  by (simp add: collect_groups_groups)

lemma true_runs_groups: "map length (map snd (filter fst (groupby xs))) = true_runs xs"
  unfolding true_runs_def by (rule groupby_run_lengths)

lemma true_runs_empty_iff: "true_runs xs = [] \<longleftrightarrow> True \<notin> set xs"
  by (simp add: true_runs_def run_lengths_empty)

lemma interaction_metrics_none:
  assumes "true_runs xs = []"
  shows "interaction_metrics ft xs = Inr none_entry"
proof -
  have "map snd (filter fst (groupby xs)) = []"
    using true_runs_groups[of xs] assms by simp
  then show ?thesis
    by (simp add: interaction_metrics_def groups_of_interaction_eq none_entry_def)
qed

lemma interaction_metrics_runs:
  assumes runs: "true_runs xs \<noteq> []" and len: "length xs < 2 ^ 63"
  shows "\<exists>total mean mx mn.
     int_mul_float (count_list xs True) ft = Inr total \<and>
     float_div_int total (length (true_runs xs)) = Inr mean \<and>
     int_mul_float (Max (set (true_runs xs))) ft = Inr mx \<and>
     int_mul_float (Min (set (true_runs xs))) ft = Inr mn \<and>
     interaction_metrics ft xs =
       Inr \<lparr>n_interactions = Val (length (true_runs xs)), total_time = Val total,
            min_time = Val mn, max_time = Val mx, mean_time = Val mean\<rparr>"
proof -
  define gs where "gs = map snd (filter fst (groupby xs))"
  have lens: "map length gs = true_runs xs"
    unfolding gs_def by (rule true_runs_groups)
  then have ne: "gs \<noteq> []" using runs by auto
  have n: "length gs = length (true_runs xs)"
    using lens by (metis length_map)
  have allT: "\<forall>g \<in> set gs. g = replicate (length g) True"
    unfolding gs_def using groupby_all_true[of _ xs] by blast
  obtain longest where longest: "py_max gs = Inr longest"
      "length longest = Max (set (true_runs xs))"
    using py_max_length[OF ne allT] lens by auto
  obtain shortest where shortest: "py_min gs = Inr shortest"
      "length shortest = Min (set (true_runs xs))"
    using py_min_length[OF ne allT] lens by auto
  have small: "k < 2 ^ 63" if "k \<le> length xs" for k
    using that len by linarith
  have mul: "int_mul_float k ft = Inr (float_mul (round64 (of_nat k)) ft)" if "k \<le> length xs" for k
    using float_of_nat_ok[OF small[OF that]] by (simp add: int_mul_float_def ebind_def)
  have c: "count_list xs True \<le> length xs" by (rule count_le_length)
  have "Max (set (true_runs xs)) \<in> set (true_runs xs)" using runs by (intro Max_in) auto
  then have mx: "Max (set (true_runs xs)) \<le> length xs" by (rule true_runs_member)
  have "Min (set (true_runs xs)) \<in> set (true_runs xs)" using runs by (intro Min_in) auto
  then have mn: "Min (set (true_runs xs)) \<le> length xs" by (rule true_runs_member)
  have cnt: "length (true_runs xs) \<le> length xs" by (rule true_runs_count)
  have pos: "0 < length (true_runs xs)" using runs by simp
  define total where "total = float_mul (round64 (of_nat (count_list xs True))) ft"
  have "float_of_nat (length (true_runs xs)) = Inr (round64 (of_nat (length (true_runs xs))))"
    by (rule float_of_nat_ok[OF small[OF cnt]])
  moreover have "round64 (of_nat (length (true_runs xs))) \<noteq> Finite 0"
    using float_of_nat_nonzero[OF pos] calculation by simp
  ultimately have dv: "float_div_int total (length (true_runs xs))
      = Inr (float_quot total (round64 (of_nat (length (true_runs xs)))))"
    by (simp add: float_div_int_def ebind_def float_truediv_def)
  have "interaction_metrics ft xs =
       Inr \<lparr>n_interactions = Val (length (true_runs xs)), total_time = Val total,
            min_time = Val (float_mul (round64 (of_nat (Min (set (true_runs xs))))) ft),
            max_time = Val (float_mul (round64 (of_nat (Max (set (true_runs xs))))) ft),
            mean_time = Val (float_quot total (round64 (of_nat (length (true_runs xs)))))\<rparr>"
    unfolding interaction_metrics_def groups_of_interaction_eq gs_def[symmetric] Let_def
    using ne longest shortest mul[OF c] mul[OF mx] mul[OF mn] dv n
    by (simp add: ebind_def total_def)
  then show ?thesis
    using mul[OF c] mul[OF mx] mul[OF mn] dv unfolding total_def by blast
qed

lemma interaction_metrics_total:
  assumes "length xs < 2 ^ 63"
  shows "\<exists>entry. interaction_metrics ft xs = Inr entry"
proof (cases "true_runs xs = []")
  case True
  then show ?thesis using interaction_metrics_none by blast
next
  case False
  then show ?thesis using interaction_metrics_runs[OF False assms, of ft] by blast
qed

lemma statistics_loop_ok:
  assumes "\<forall>(k, xs) \<in> set items. k \<in> dom s \<and> (\<exists>e. interaction_metrics ft xs = Inr e)"
  shows "\<exists>st. statistics_loop ft items s = Inr st \<and> dom st = dom s \<and>
           (\<forall>k. k \<notin> fst ` set items \<longrightarrow> st k = s k) \<and>
           (distinct (map fst items) \<longrightarrow>
              (\<forall>(k, xs) \<in> set items. \<exists>e. st k = Some e \<and> interaction_metrics ft xs = Inr e))"
  using assms
proof (induction items arbitrary: s)
  case Nil
  show ?case by simp
next
  case (Cons item items)
  obtain k xs where item: "item = (k, xs)" by (cases item)
  obtain e where e: "interaction_metrics ft xs = Inr e" and k: "k \<in> dom s"
    using Cons.prems item by auto
  have "\<forall>(k', xs') \<in> set items. k' \<in> dom (s(k \<mapsto> e)) \<and> (\<exists>e. interaction_metrics ft xs' = Inr e)"
    using Cons.prems by auto
  from Cons.IH[OF this] obtain st where st:
    "statistics_loop ft items (s(k \<mapsto> e)) = Inr st" "dom st = dom (s(k \<mapsto> e))"
    "\<forall>k'. k' \<notin> fst ` set items \<longrightarrow> st k' = (s(k \<mapsto> e)) k'"
    "distinct (map fst items) \<longrightarrow>
       (\<forall>(k', xs') \<in> set items. \<exists>e. st k' = Some e \<and> interaction_metrics ft xs' = Inr e)"
    by blast
  have run: "statistics_loop ft (item # items) s = Inr st"
    using e k st(1) item by (auto simp: ebind_def)
  have d: "dom st = dom s" using st(2) k by auto
  have outside: "\<forall>k'. k' \<notin> fst ` set (item # items) \<longrightarrow> st k' = s k'"
    using st(3) item by auto
  have inside: "\<forall>(k', xs') \<in> set (item # items). \<exists>e. st k' = Some e \<and> interaction_metrics ft xs' = Inr e"
    if dist: "distinct (map fst (item # items))"
  proof -
    have "k \<notin> fst ` set items" using dist item by auto
    then have "st k = Some e" using st(3) by simp
    moreover have "\<forall>(k', xs') \<in> set items. \<exists>e. st k' = Some e \<and> interaction_metrics ft xs' = Inr e"
      using st(4) dist by simp
    ultimately show ?thesis using e item by auto
  qed
  show ?case using run d outside inside by blast
qed

lemma statistics_loop_key_error:
  assumes "\<forall>xs \<in> snd ` set items. \<exists>e. interaction_metrics ft xs = Inr e"
    and "\<not> fst ` set items \<subseteq> dom s"
  shows "\<exists>k \<in> fst ` set items. k \<notin> dom s \<and> statistics_loop ft items s = Inl (KeyError k)"
  using assms
proof (induction items arbitrary: s)
  case Nil
  then show ?case by simp
next
  case (Cons item items)
  obtain k xs where item: "item = (k, xs)" by (cases item)
  obtain e where e: "interaction_metrics ft xs = Inr e"
    using Cons.prems(1) item by auto
  show ?case
  proof (cases "s k")
    case None
    then have "statistics_loop ft (item # items) s = Inl (KeyError k)"
      using e item by (simp add: ebind_def)
    moreover have "k \<notin> dom s" using None by auto
    ultimately show ?thesis using item by auto
  next
    case (Some old)
    then have d: "dom (s(k \<mapsto> e)) = dom s" by auto
    have "\<not> fst ` set items \<subseteq> dom (s(k \<mapsto> e))"
      using Cons.prems(2) Some item d by auto
    moreover have "\<forall>xs \<in> snd ` set items. \<exists>e. interaction_metrics ft xs = Inr e"
      using Cons.prems(1) by auto
    ultimately obtain k' where k': "k' \<in> fst ` set items" "k' \<notin> dom (s(k \<mapsto> e))"
        "statistics_loop ft items (s(k \<mapsto> e)) = Inl (KeyError k')"
      using Cons.IH[of "s(k \<mapsto> e)"] by blast
    have "statistics_loop ft (item # items) s = Inl (KeyError k')"
      using e Some item k'(3) by (simp add: ebind_def)
    then show ?thesis using k'(1,2) d by auto
  qed
qed

lemma interaction_metrics_no_zero_division:
  "interaction_metrics ft xs \<noteq> Inl ZeroDivisionError"
proof -
  define gs where "gs = map snd (filter fst (groupby xs))"
  show ?thesis
  proof (cases "gs = []")
    case True
    then show ?thesis
      by (simp add: interaction_metrics_def groups_of_interaction_eq gs_def[symmetric])
  next
    case False
    then obtain g rest where gs: "gs = g # rest" by (cases gs) auto
    have dv: "float_div_int t (length gs) \<noteq> Inl ZeroDivisionError" for t
      using False by (intro float_div_int_no_zero_division) simp
    show ?thesis
      unfolding interaction_metrics_def groups_of_interaction_eq gs_def[symmetric] Let_def
      using False dv int_mul_float_no_zero_division
      by (auto simp: ebind_def py_max_def py_min_def gs split: sum.splits)
  qed
qed

lemma statistics_loop_no_zero_division:
  "statistics_loop ft items s \<noteq> Inl ZeroDivisionError"
proof (induction items arbitrary: s)
  case Nil
  show ?case by simp
next
  case (Cons item items)
  obtain k xs where item: "item = (k, xs)" by (cases item)
  show ?case
    using interaction_metrics_no_zero_division[of ft xs] Cons.IH item
    by (auto simp: ebind_def split: sum.splits option.splits)
qed

lemma interactions_statistics_entry:
  assumes ft: "int_div_float 1 fps = Inr frame_time"
    and dist: "distinct (map fst items)"
    and keys: "fst ` set items \<subseteq> pair_keys"
    and lens: "\<forall>xs \<in> snd ` set items. length xs < 2 ^ 63"
    and mem: "(key, series) \<in> set items"
  shows "\<exists>statistics entry. interactions_statistics fps items = Inr statistics \<and>
           statistics key = Some entry \<and> interaction_metrics frame_time series = Inr entry"
proof -
  have pre: "\<forall>(k, xs) \<in> set items. k \<in> dom initial_statistics \<and>
          (\<exists>e. interaction_metrics frame_time xs = Inr e)"
  proof (clarify, intro conjI)
    fix k xs assume kx: "(k, xs) \<in> set items"
    then have "k \<in> fst ` set items" by force
    then show "k \<in> dom initial_statistics"
      using keys unfolding dom_initial_statistics by blast
    have "xs \<in> snd ` set items" using kx by force
    then have "length xs < 2 ^ 63" using lens by blast
    then show "\<exists>e. interaction_metrics frame_time xs = Inr e"
      by (rule interaction_metrics_total)
  qed
  obtain st where st: "statistics_loop frame_time items initial_statistics = Inr st"
    and inside: "distinct (map fst items) \<longrightarrow>
      (\<forall>(k, xs) \<in> set items. \<exists>e. st k = Some e \<and> interaction_metrics frame_time xs = Inr e)"
    using statistics_loop_ok[OF pre] by blast
  from inside dist mem obtain e where
    "st key = Some e" "interaction_metrics frame_time series = Inr e"
    by blast
  moreover have "interactions_statistics fps items = Inr st"
    using ft st by (simp add: interactions_statistics_def ebind_def)
  ultimately show ?thesis by blast
qed

text \<open>
  The two equations that fix \<open>true_runs\<close>: a \<open>False\<close> separates the runs on
  its two sides, and a block of \<open>True\<close> alone is one run.
\<close>

lemma run_lengths_append_False:
  "run_lengths c (xs @ False # ys) = run_lengths c xs @ run_lengths 0 ys"
  by (induction xs arbitrary: c) auto

lemma true_runs_append_False: "true_runs (xs @ False # ys) = true_runs xs @ true_runs ys"
  by (simp add: true_runs_def run_lengths_append_False)

lemma run_lengths_replicate: "run_lengths c (replicate n True) = (if 0 < c + n then [c + n] else [])"
  by (induction n arbitrary: c) auto

lemma true_runs_replicate: "0 < n \<Longrightarrow> true_runs (replicate n True) = [n]"
  by (simp add: true_runs_def run_lengths_replicate)

lemma dd_get_append:
  "dd_get (dd_append d k v) k' = (if k' = k then dd_get d k @ [v] else dd_get d k')"
  by (simp add: dd_get_def dd_append_def)

lemma append_pred_length:
  assumes "append_pred d preds key i bbs = Inr bbs'"
  shows "length (dd_get bbs' k) = length (dd_get bbs k) + (if k = key then 1 else 0)"
  using assms
  by (auto simp: append_pred_def ebind_def dd_get_append split: sum.splits)

lemma bboxes_step_length:
  assumes "bboxes_step d n_classes cap bbs = Inr (cap', bbs')" and "k \<in> class_keys"
  shows "length (dd_get bbs' k) = Suc (length (dd_get bbs k))"
proof -
  from assms(1) obtain preds b1 b2 b3 b4 b5 where
    s: "append_pred d preds ''td'' 0 bbs = Inr b1"
       "append_pred d preds ''ct'' 1 b1 = Inr b2"
       "append_pred d preds ''pm'' 2 b2 = Inr b3"
       "append_pred d preds ''td_ct_interaction'' 3 b3 = Inr b4"
       "append_pred d preds ''td_pm_interaction'' 4 b4 = Inr b5"
       "append_pred d preds ''ct_pm_interaction'' 5 b5 = Inr bbs'"
    by (auto simp: bboxes_step_def ebind_def read_def split: list.splits sum.splits)
  show ?thesis
    using assms(2)
    unfolding append_pred_length[OF s(6)] append_pred_length[OF s(5)] append_pred_length[OF s(4)]
      append_pred_length[OF s(3)] append_pred_length[OF s(2)] append_pred_length[OF s(1)]
    by (auto simp: class_keys_def)
qed

lemma bboxes_loop_length:
  assumes "bboxes_loop d n_classes n cap bbs = Inr bbs'" and "k \<in> class_keys"
  shows "length (dd_get bbs' k) = length (dd_get bbs k) + n"
  using assms
proof (induction n arbitrary: cap bbs)
  case 0
  then show ?case by simp
next
  case (Suc n)
  from Suc.prems(1) obtain cap1 bbs1 where
    step: "bboxes_step d n_classes cap bbs = Inr (cap1, bbs1)"
    and rest: "bboxes_loop d n_classes n cap1 bbs1 = Inr bbs'"
    by (auto simp: ebind_def split: sum.splits)
  show ?case
    using Suc.IH[OF rest Suc.prems(2)] bboxes_step_length[OF step Suc.prems(2)] by simp
qed

lemma bboxes_step_exhausted:
  "bboxes_step d n_classes [] bbs = Inl (TypeError none_not_subscriptable)"
  by (simp add: bboxes_step_def read_def)

lemma bboxes_step_cap:
  assumes "bboxes_step d n_classes (frame # rest) bbs = Inr (cap', bbs')"
  shows "cap' = rest"
  using assms by (auto simp: bboxes_step_def read_def ebind_def split: sum.splits)

lemma append_pred_ok:
  assumes "i < length preds" and "mk_bbox d (preds ! i) = Inr b"
  shows "append_pred d preds key i bbs = Inr (dd_append bbs key b)"
  using assms by (simp add: append_pred_def get_def ebind_def)

lemma bboxes_step_ok:
  assumes "frame_ok d n_classes frame"
  shows "\<exists>bbs'. bboxes_step d n_classes (frame # rest) bbs = Inr (rest, bbs')"
proof -
  from assms obtain inference preds where
    m: "model d frame = Inr inference"
    and p: "preds_from_torch_results d inference n_classes = Inr preds"
    and len: "6 \<le> length preds"
    and all: "list_all (\<lambda>p. case mk_bbox d p of Inl e \<Rightarrow> False | Inr b \<Rightarrow> True) (take 6 preds)"
    by (auto simp: frame_ok_def split: sum.splits)
  have box: "\<exists>b. mk_bbox d (preds ! i) = Inr b" if "i < 6" for i
  proof -
    have "preds ! i \<in> set (take 6 preds)"
      using that len by (metis in_set_conv_nth length_take min.absorb2 nth_take)
    with all show ?thesis
      by (cases "mk_bbox d (preds ! i)") (auto simp: list_all_iff)
  qed
  obtain b0 b1 b2 b3 b4 b5 where b:
    "mk_bbox d (preds ! 0) = Inr b0" "mk_bbox d (preds ! 1) = Inr b1"
    "mk_bbox d (preds ! 2) = Inr b2" "mk_bbox d (preds ! 3) = Inr b3"
    "mk_bbox d (preds ! 4) = Inr b4" "mk_bbox d (preds ! 5) = Inr b5"
    using box[of 0] box[of 1] box[of 2] box[of 3] box[of 4] box[of 5] by auto
  have i: "0 < length preds" "1 < length preds" "2 < length preds" "3 < length preds"
    "4 < length preds" "5 < length preds"
    using len by auto
  show ?thesis
    unfolding bboxes_step_def read_def
    by (simp del: One_nat_def add: m p ebind_def append_pred_ok[OF i(1) b(1)] append_pred_ok[OF i(2) b(2)]
          append_pred_ok[OF i(3) b(3)] append_pred_ok[OF i(4) b(4)]
          append_pred_ok[OF i(5) b(5)] append_pred_ok[OF i(6) b(6)])
qed

lemma bboxes_loop_short:
  assumes "length cap < n"
  shows "\<exists>e. bboxes_loop d n_classes n cap bbs = Inl e"
  using assms
proof (induction n arbitrary: cap bbs)
  case 0
  then show ?case by simp
next
  case (Suc n)
  show ?case
  proof (cases cap)
    case Nil
    then show ?thesis by (simp add: bboxes_step_exhausted ebind_def)
  next
    case (Cons frame rest)
    show ?thesis
    proof (cases "bboxes_step d n_classes cap bbs")
      case (Inl e)
      then show ?thesis by (simp add: ebind_def)
    next
      case (Inr r)
      obtain cap' bbs' where r: "r = (cap', bbs')" by (cases r)
      have "cap' = rest" using Inr r Cons bboxes_step_cap by metis
      then have "length cap' < n" using Suc.prems Cons by simp
      from Suc.IH[OF this, of bbs'] show ?thesis
        using Inr r by (simp add: ebind_def)
    qed
  qed
qed

lemma bboxes_loop_short_ok:
  assumes "length cap < n" and "\<forall>frame \<in> set cap. frame_ok d n_classes frame"
  shows "bboxes_loop d n_classes n cap bbs = Inl (TypeError none_not_subscriptable)"
  using assms
proof (induction n arbitrary: cap bbs)
  case 0
  then show ?case by simp
next
  case (Suc n)
  show ?case
  proof (cases cap)
    case Nil
    then show ?thesis by (simp add: bboxes_step_exhausted ebind_def)
  next
    case (Cons frame rest)
    then have "frame_ok d n_classes frame" using Suc.prems(2) by simp
    then obtain bbs' where step: "bboxes_step d n_classes (frame # rest) bbs = Inr (rest, bbs')"
      using bboxes_step_ok[of d n_classes frame rest bbs] by blast
    have "length rest < n" using Suc.prems(1) Cons by simp
    moreover have "\<forall>frame \<in> set rest. frame_ok d n_classes frame"
      using Suc.prems(2) Cons by simp
    ultimately have "bboxes_loop d n_classes n rest bbs' = Inl (TypeError none_not_subscriptable)"
      by (rule Suc.IH)
    then show ?thesis using step Cons by (simp add: ebind_def)
  qed
qed

lemma is_present_iff: "is_present b \<longleftrightarrow> b \<noteq> Absent"
  by (cases b) (simp_all add: is_present_def)

lemma is_present_with_conf: "is_present (with_conf f b) = is_present b"
  by (cases b) (simp_all add: is_present_def with_conf_def)

lemma dd_get_map_table: "dd_get (map_table f t) key = map f (dd_get t key)"
  by (simp add: dd_get_def map_table_def split: option.splits)

lemma interactions_loop_result:
  assumes "\<forall>idx \<in> set idxs. idx < length (dd_get bbs ''td_ct_interaction'') \<and>
             idx < length (dd_get bbs ''td_pm_interaction'') \<and>
             idx < length (dd_get bbs ''ct_pm_interaction'')"
  shows "\<exists>tbl. interactions_loop bbs idxs acc = Inr tbl \<and>
           (\<forall>key \<in> pair_keys. dd_get tbl key = dd_get acc key @
              map (\<lambda>idx. is_present (dd_get bbs (key @ ''_interaction'') ! idx)) idxs)"
  using assms
proof (induction idxs arbitrary: acc)
  case Nil
  show ?case by simp
next
  case (Cons idx idxs)
  define acc' where "acc' = dd_append (dd_append (dd_append acc
      ''td_ct'' (is_present (dd_get bbs ''td_ct_interaction'' ! idx)))
      ''td_pm'' (is_present (dd_get bbs ''td_pm_interaction'' ! idx)))
      ''ct_pm'' (is_present (dd_get bbs ''ct_pm_interaction'' ! idx))"
  have step: "interactions_loop bbs (idx # idxs) acc = interactions_loop bbs idxs acc'"
    using Cons.prems by (simp add: get_def ebind_def acc'_def)
  have "\<forall>idx \<in> set idxs. idx < length (dd_get bbs ''td_ct_interaction'') \<and>
             idx < length (dd_get bbs ''td_pm_interaction'') \<and>
             idx < length (dd_get bbs ''ct_pm_interaction'')"
    using Cons.prems by simp
  from Cons.IH[OF this, of acc'] obtain tbl where tbl:
    "interactions_loop bbs idxs acc' = Inr tbl"
    "\<forall>key \<in> pair_keys. dd_get tbl key = dd_get acc' key @
        map (\<lambda>idx. is_present (dd_get bbs (key @ ''_interaction'') ! idx)) idxs"
    by blast
  have "\<forall>key \<in> pair_keys. dd_get acc' key = dd_get acc key @
          [is_present (dd_get bbs (key @ ''_interaction'') ! idx)]"
    by (simp add: pair_keys_def acc'_def dd_get_append)
  with tbl(2) have "\<forall>key \<in> pair_keys. dd_get tbl key = dd_get acc key @
        map (\<lambda>idx. is_present (dd_get bbs (key @ ''_interaction'') ! idx)) (idx # idxs)"
    by simp
  with step tbl(1) show ?case by simp
qed

lemma interactions_loop_conf:
  "interactions_loop (map_table (with_conf f) bbs) idxs acc = interactions_loop bbs idxs acc"
proof (induction idxs arbitrary: acc)
  case Nil
  show ?case by simp
next
  case (Cons idx idxs)
  show ?case
    by (simp add: Cons.IH get_def ebind_def dd_get_map_table is_present_with_conf)
qed

section \<open>The claims\<close>

text \<open>
  C1. For a series with at least one maximal run of \<open>True\<close>, the call sets
  \<open>min_time\<close> to the length of the shortest run times the frame duration and
  \<open>max_time\<close> to the length of the longest run times the frame duration. The
  frame duration is the value of \<open>1 / fps\<close>, the keys are the pair keys, and a list
  has fewer than \<open>2 ^ 63\<close> elements.
\<close>

theorem min_max_time_of_runs:
  assumes "int_div_float 1 fps = Inr frame_time"
    and "distinct (map fst items)"
    and "fst ` set items \<subseteq> pair_keys"
    and "\<forall>xs \<in> snd ` set items. length xs < 2 ^ 63"
    and "(key, series) \<in> set items"
    and "true_runs series \<noteq> []"
  shows "\<exists>statistics entry mn mx.
     interactions_statistics fps items = Inr statistics \<and> statistics key = Some entry \<and>
     int_mul_float (Min (set (true_runs series))) frame_time = Inr mn \<and> min_time entry = Val mn \<and>
     int_mul_float (Max (set (true_runs series))) frame_time = Inr mx \<and> max_time entry = Val mx"
proof -
  obtain statistics entry where st:
    "interactions_statistics fps items = Inr statistics" "statistics key = Some entry"
    "interaction_metrics frame_time series = Inr entry"
    using interactions_statistics_entry[OF assms(1-5)] by blast
  have "length series < 2 ^ 63" using assms(4,5) by force
  from interaction_metrics_runs[OF assms(6) this, of frame_time] st(3)
  obtain mn mx where
    "int_mul_float (Min (set (true_runs series))) frame_time = Inr mn" "min_time entry = Val mn"
    "int_mul_float (Max (set (true_runs series))) frame_time = Inr mx" "max_time entry = Val mx"
    by auto
  with st(1,2) show ?thesis by blast
qed

theorem min_max_time_of_runs_witness:
  "int_div_float 1 (Finite 2) = Inr (Finite (1 / 2)) \<and>
   true_runs [True, True, False, True] = [2, 1] \<and>
   (\<exists>statistics entry mn mx.
     interactions_statistics (Finite 2) [(''td_ct'', [True, True, False, True])] = Inr statistics \<and>
     statistics ''td_ct'' = Some entry \<and>
     int_mul_float (Min (set (true_runs [True, True, False, True]))) (Finite (1 / 2)) = Inr mn \<and>
     min_time entry = Val mn \<and>
     int_mul_float (Max (set (true_runs [True, True, False, True]))) (Finite (1 / 2)) = Inr mx \<and>
     max_time entry = Val mx)"
proof -
  have h1: "int_div_float 1 (Finite 2) = Inr (Finite (1 / 2))" by code_simp
  have h2: "distinct (map fst [(''td_ct'', [True, True, False, True])])" by simp
  have h3: "fst ` set [(''td_ct'', [True, True, False, True])] \<subseteq> pair_keys"
    by (simp add: pair_keys_def)
  have h4: "\<forall>xs \<in> snd ` set [(''td_ct'', [True, True, False, True])]. length xs < 2 ^ 63"
    by simp
  have h5: "(''td_ct'', [True, True, False, True]) \<in> set [(''td_ct'', [True, True, False, True])]"
    by simp
  have r: "true_runs [True, True, False, True] = [2, 1]" by (simp add: true_runs_def)
  then have h6: "true_runs [True, True, False, True] \<noteq> []" by simp
  show ?thesis
    by (intro conjI h1 r min_max_time_of_runs[OF h1 h2 h3 h4 h5 h6])
qed

text \<open>
  C2. The series \<open>[T, T, F, T, F, F, T, T, T]\<close> at two frames per second, that is
  with a frame duration of \<open>0.5\<close> seconds: three episodes, \<open>3.0\<close> seconds in
  total, the shortest \<open>0.5\<close>, the longest \<open>1.5\<close> and the mean \<open>1.0\<close> seconds.
\<close>

theorem statistics_of_example_series:
  "int_div_float 1 (Finite 2) = Inr (Finite (1 / 2)) \<and>
   entry_of (interactions_statistics (Finite 2)
       [(''td_ct'', [True, True, False, True, False, False, True, True, True])]) ''td_ct''
     = Some \<lparr>n_interactions = Val 3, total_time = Val (Finite 3), min_time = Val (Finite (1 / 2)),
             max_time = Val (Finite (3 / 2)), mean_time = Val (Finite 1)\<rparr>"
  by code_simp

text \<open>
  C3. For a series without any run of \<open>True\<close> (all \<open>False\<close>, or empty) the call
  sets the five fields to \<open>None\<close>, which is not the number zero.
\<close>

theorem no_runs_all_none:
  assumes "int_div_float 1 fps = Inr frame_time"
    and "distinct (map fst items)"
    and "fst ` set items \<subseteq> pair_keys"
    and "\<forall>xs \<in> snd ` set items. length xs < 2 ^ 63"
    and "(key, series) \<in> set items"
    and "True \<notin> set series"
  shows "true_runs series = [] \<and>
     (\<exists>statistics. interactions_statistics fps items = Inr statistics \<and>
        statistics key = Some \<lparr>n_interactions = PyNone, total_time = PyNone, min_time = PyNone,
          max_time = PyNone, mean_time = PyNone\<rparr>) \<and>
     (PyNone :: nat field) \<noteq> Val 0 \<and> (PyNone :: pyfloat field) \<noteq> Val (Finite 0)"
proof -
  have runs: "true_runs series = []"
    using assms(6) by (simp add: true_runs_empty_iff)
  obtain statistics entry where st:
    "interactions_statistics fps items = Inr statistics" "statistics key = Some entry"
    "interaction_metrics frame_time series = Inr entry"
    using interactions_statistics_entry[OF assms(1-5)] by blast
  have "entry = none_entry"
    using interaction_metrics_none[OF runs, of frame_time] st(3) by simp
  then show ?thesis
    using runs st(1,2) by (simp add: none_entry_def)
qed

theorem no_runs_all_none_witness:
  "int_div_float 1 (Finite 2) = Inr (Finite (1 / 2)) \<and>
   True \<notin> set [False, False, False] \<and>
   true_runs [False, False, False] = [] \<and>
   (\<exists>statistics. interactions_statistics (Finite 2)
        [(''td_ct'', [True]), (''ct_pm'', [False, False, False])] = Inr statistics \<and>
      statistics ''ct_pm'' = Some \<lparr>n_interactions = PyNone, total_time = PyNone,
        min_time = PyNone, max_time = PyNone, mean_time = PyNone\<rparr>) \<and>
   (PyNone :: nat field) \<noteq> Val 0 \<and> (PyNone :: pyfloat field) \<noteq> Val (Finite 0)"
proof -
  have h1: "int_div_float 1 (Finite 2) = Inr (Finite (1 / 2))" by code_simp
  have h2: "distinct (map fst [(''td_ct'', [True]), (''ct_pm'', [False, False, False])])" by simp
  have h3: "fst ` set [(''td_ct'', [True]), (''ct_pm'', [False, False, False])] \<subseteq> pair_keys"
    by (simp add: pair_keys_def)
  have h4: "\<forall>xs \<in> snd ` set [(''td_ct'', [True]), (''ct_pm'', [False, False, False])].
              length xs < 2 ^ 63"
    by simp
  have h5: "(''ct_pm'', [False, False, False])
              \<in> set [(''td_ct'', [True]), (''ct_pm'', [False, False, False])]"
    by simp
  have h6: "True \<notin> set [False, False, False]" by simp
  show ?thesis
    by (intro conjI h1 h6 no_runs_all_none[OF h1 h2 h3 h4 h5 h6, THEN conjunct1]
          no_runs_all_none[OF h1 h2 h3 h4 h5 h6, THEN conjunct2, THEN conjunct1]) simp_all
qed

text \<open>
  C4. For a series with at least one run, \<open>mean_time\<close> is \<open>total_time\<close> divided by
  the number of episodes. A division by a count of zero would raise
  \<open>ZeroDivisionError\<close>; once the frame duration is computed the call never raises it,
  whatever the input, so that division is never executed.
\<close>

theorem mean_time_is_quotient:
  assumes "int_div_float 1 fps = Inr frame_time"
    and "distinct (map fst items)"
    and "fst ` set items \<subseteq> pair_keys"
    and "\<forall>xs \<in> snd ` set items. length xs < 2 ^ 63"
    and "(key, series) \<in> set items"
    and "true_runs series \<noteq> []"
  shows "(\<exists>statistics entry total mean.
       interactions_statistics fps items = Inr statistics \<and> statistics key = Some entry \<and>
       n_interactions entry = Val (length (true_runs series)) \<and> total_time entry = Val total \<and>
       float_div_int total (length (true_runs series)) = Inr mean \<and> mean_time entry = Val mean) \<and>
     float_div_int total' 0 = Inl ZeroDivisionError \<and>
     interactions_statistics fps any_items \<noteq> Inl ZeroDivisionError"
proof -
  obtain statistics entry where st:
    "interactions_statistics fps items = Inr statistics" "statistics key = Some entry"
    "interaction_metrics frame_time series = Inr entry"
    using interactions_statistics_entry[OF assms(1-5)] by blast
  have "length series < 2 ^ 63" using assms(4,5) by force
  from interaction_metrics_runs[OF assms(6) this, of frame_time] st(3)
  obtain total mean where
    "n_interactions entry = Val (length (true_runs series))" "total_time entry = Val total"
    "float_div_int total (length (true_runs series)) = Inr mean" "mean_time entry = Val mean"
    by auto
  with st(1,2) have a: "\<exists>statistics entry total mean.
       interactions_statistics fps items = Inr statistics \<and> statistics key = Some entry \<and>
       n_interactions entry = Val (length (true_runs series)) \<and> total_time entry = Val total \<and>
       float_div_int total (length (true_runs series)) = Inr mean \<and> mean_time entry = Val mean"
    by blast
  have "float_of_nat 0 = Inr (Finite 0)"
    by (simp add: float_of_nat_def round64_def)
  then have b: "float_div_int total' 0 = Inl ZeroDivisionError"
    by (simp add: float_div_int_def ebind_def float_truediv_def)
  have c: "interactions_statistics fps any_items \<noteq> Inl ZeroDivisionError"
    using assms(1) statistics_loop_no_zero_division[of frame_time any_items initial_statistics]
    by (simp add: interactions_statistics_def ebind_def)
  from a b c show ?thesis by (intro conjI)
qed

theorem mean_time_is_quotient_witness:
  "int_div_float 1 (Finite 2) = Inr (Finite (1 / 2)) \<and>
   true_runs [True, True, False, True] = [2, 1] \<and>
   (\<exists>statistics entry total mean.
       interactions_statistics (Finite 2) [(''td_pm'', [True, True, False, True])] = Inr statistics \<and>
       statistics ''td_pm'' = Some entry \<and>
       n_interactions entry = Val (length (true_runs [True, True, False, True])) \<and>
       total_time entry = Val total \<and>
       float_div_int total (length (true_runs [True, True, False, True])) = Inr mean \<and>
       mean_time entry = Val mean) \<and>
   float_div_int (Finite 3) 0 = Inl ZeroDivisionError \<and>
   interactions_statistics (Finite 2) [(''td_pm'', [False])] \<noteq> Inl ZeroDivisionError"
proof -
  have h1: "int_div_float 1 (Finite 2) = Inr (Finite (1 / 2))" by code_simp
  have h2: "distinct (map fst [(''td_pm'', [True, True, False, True])])" by simp
  have h3: "fst ` set [(''td_pm'', [True, True, False, True])] \<subseteq> pair_keys"
    by (simp add: pair_keys_def)
  have h4: "\<forall>xs \<in> snd ` set [(''td_pm'', [True, True, False, True])]. length xs < 2 ^ 63"
    by simp
  have h5: "(''td_pm'', [True, True, False, True]) \<in> set [(''td_pm'', [True, True, False, True])]"
    by simp
  have r: "true_runs [True, True, False, True] = [2, 1]" by (simp add: true_runs_def)
  then have h6: "true_runs [True, True, False, True] \<noteq> []" by simp
  note t = mean_time_is_quotient[OF h1 h2 h3 h4 h5 h6, of "Finite 3" "[(''td_pm'', [False])]"]
  show ?thesis
    by (intro conjI h1 r t[THEN conjunct1] t[THEN conjunct2, THEN conjunct1]
          t[THEN conjunct2, THEN conjunct2])
qed

text \<open>
  C5. When the collector returns a table for a declared frame count that is not
  negative, each of the six class sequences has exactly that length.
\<close>

theorem detection_table_lengths:
  assumes "bboxes d n_classes total_frames cap = Inr bbs" and "0 \<le> total_frames"
  shows "\<forall>key \<in> class_keys. int (length (dd_get bbs key)) = total_frames"
proof
  fix key assume key: "key \<in> class_keys"
  have run: "bboxes_loop d n_classes (nat total_frames) cap Map.empty = Inr bbs"
    using assms(1) by (simp add: bboxes_def)
  show "int (length (dd_get bbs key)) = total_frames"
    using bboxes_loop_length[OF run key] assms(2) by (simp add: dd_get_def)
qed

theorem detection_table_lengths_witness:
  "bboxes example_detector 6 2 [0, 1, 2] = Inr example_table \<and> (0::int) \<le> 2 \<and>
   int (length (dd_get example_table ''td'')) = 2 \<and>
   int (length (dd_get example_table ''ct'')) = 2 \<and>
   int (length (dd_get example_table ''pm'')) = 2 \<and>
   int (length (dd_get example_table ''td_ct_interaction'')) = 2 \<and>
   int (length (dd_get example_table ''td_pm_interaction'')) = 2 \<and>
   int (length (dd_get example_table ''ct_pm_interaction'')) = 2"
proof -
  have h1: "bboxes example_detector 6 2 [0, 1, 2] = Inr example_table"
    by (simp add: bboxes_def bboxes_step_def read_def example_detector_def append_pred_def
          ebind_def get_def dd_append_def dd_get_def numeral_2_eq_2 fun_upd_twist
          example_table_def)
  have h2: "(0::int) \<le> 2" by simp
  note t = detection_table_lengths[OF h1 h2, THEN bspec]
  show ?thesis
    by (intro conjI h1 h2 t) (simp_all add: class_keys_def)
qed

text \<open>
  C6. On a table whose interaction sequences cover the frame count, every entry of the
  interaction table is true exactly when the box of the corresponding interaction
  class is present at that frame, and changing the confidences of the boxes changes
  nothing.
\<close>

theorem interaction_table_presence:
  assumes "\<forall>key \<in> pair_keys. nat total_frames \<le> length (dd_get bbs (key @ ''_interaction''))"
  shows "(\<exists>tbl. interactions bbs total_frames = Inr tbl \<and>
      (\<forall>key \<in> pair_keys. length (dd_get tbl key) = nat total_frames \<and>
         (\<forall>idx < nat total_frames.
            dd_get tbl key ! idx = (dd_get bbs (key @ ''_interaction'') ! idx \<noteq> Absent)))) \<and>
     interactions (map_table (with_conf f) bbs) total_frames = interactions bbs total_frames"
proof -
  have "\<forall>idx \<in> set [0 ..< nat total_frames]. idx < length (dd_get bbs ''td_ct_interaction'') \<and>
             idx < length (dd_get bbs ''td_pm_interaction'') \<and>
             idx < length (dd_get bbs ''ct_pm_interaction'')"
    using assms by (auto simp: pair_keys_def)
  from interactions_loop_result[OF this, of Map.empty] obtain tbl where tbl:
    "interactions bbs total_frames = Inr tbl"
    "\<forall>key \<in> pair_keys. dd_get tbl key =
        map (\<lambda>idx. is_present (dd_get bbs (key @ ''_interaction'') ! idx)) [0 ..< nat total_frames]"
    by (auto simp: interactions_def dd_get_def)
  have "\<forall>key \<in> pair_keys. length (dd_get tbl key) = nat total_frames \<and>
         (\<forall>idx < nat total_frames.
            dd_get tbl key ! idx = (dd_get bbs (key @ ''_interaction'') ! idx \<noteq> Absent))"
    using tbl(2) by (simp add: is_present_iff)
  with tbl(1) show ?thesis
    by (simp add: interactions_def interactions_loop_conf)
qed

theorem interaction_table_presence_witness:
  "nat 2 \<le> length (dd_get example_table ''td_ct_interaction'') \<and>
   nat 2 \<le> length (dd_get example_table ''td_pm_interaction'') \<and>
   nat 2 \<le> length (dd_get example_table ''ct_pm_interaction'') \<and>
   (\<exists>tbl. interactions example_table 2 = Inr tbl \<and>
      (\<forall>key \<in> pair_keys. length (dd_get tbl key) = nat 2 \<and>
         (\<forall>idx < nat 2.
            dd_get tbl key ! idx
              = (dd_get example_table (key @ ''_interaction'') ! idx \<noteq> Absent)))) \<and>
   interactions (map_table (with_conf area) example_table) 2 = interactions example_table 2 \<and>
   column_of (interactions example_table 2) ''td_ct'' = Some [True, True] \<and>
   column_of (interactions example_table 2) ''td_pm'' = Some [False, False]"
proof -
  have l1: "nat 2 \<le> length (dd_get example_table ''td_ct_interaction'')"
    and l2: "nat 2 \<le> length (dd_get example_table ''td_pm_interaction'')"
    and l3: "nat 2 \<le> length (dd_get example_table ''ct_pm_interaction'')"
    by (simp_all add: example_table_def dd_get_def)
  have h: "\<forall>key \<in> pair_keys. nat 2 \<le> length (dd_get example_table (key @ ''_interaction''))"
    using l1 l2 l3 by (simp add: pair_keys_def)
  note t = interaction_table_presence[OF h, of area]
  have c1: "column_of (interactions example_table 2) ''td_ct'' = Some [True, True]"
    by (simp add: column_of_def interactions_def example_table_def ebind_def get_def dd_get_def
          dd_append_def is_present_def upt_rec)
  have c2: "column_of (interactions example_table 2) ''td_pm'' = Some [False, False]"
    by (simp add: column_of_def interactions_def example_table_def ebind_def get_def dd_get_def
          dd_append_def is_present_def upt_rec)
  show ?thesis
    by (intro conjI l1 l2 l3 t[THEN conjunct1] t[THEN conjunct2] c1 c2)
qed

text \<open>
  C7, as stated, fails: the error raised when the source is exhausted is the same
  whether the read fails at frame \<open>0\<close> or at frame \<open>2\<close>; it names no frame index
  and no stage.
\<close>

theorem error_carries_no_frame_index:
  "bboxes example_detector 6 1 [] = Inl (TypeError none_not_subscriptable) \<and>
   bboxes example_detector 6 3 [0, 1] = Inl (TypeError none_not_subscriptable)"
  by (simp add: bboxes_def bboxes_step_def read_def example_detector_def append_pred_def
        ebind_def get_def numeral_3_eq_3)

text \<open>
  C7, amended. When the source holds fewer frames than declared, the run fails as a
  whole and returns no table; when the collaborators succeed on every frame there is,
  the error is the \<open>TypeError\<close> of subscripting \<open>None\<close>.
\<close>

theorem short_source_fails:
  assumes "int (length cap) < total_frames"
  shows "(\<exists>e. bboxes d n_classes total_frames cap = Inl e) \<and>
     ((\<forall>frame \<in> set cap. frame_ok d n_classes frame) \<longrightarrow>
        bboxes d n_classes total_frames cap = Inl (TypeError none_not_subscriptable))"
proof -
  have "length cap < nat total_frames" using assms by linarith
  then show ?thesis
    unfolding bboxes_def using bboxes_loop_short bboxes_loop_short_ok by blast
qed

theorem short_source_fails_witness:
  "int (length [0, 1 :: nat]) < 3 \<and>
   frame_ok example_detector 6 0 \<and> frame_ok example_detector 6 1 \<and>
   (\<exists>e. bboxes example_detector 6 3 [0, 1] = Inl e) \<and>
   bboxes example_detector 6 3 [0, 1] = Inl (TypeError none_not_subscriptable)"
proof -
  have h1: "int (length [0, 1 :: nat]) < 3" by simp
  have f0: "frame_ok example_detector 6 0" and f1: "frame_ok example_detector 6 1"
    by (simp_all add: frame_ok_def example_detector_def)
  then have h2: "\<forall>frame \<in> set [0, 1]. frame_ok example_detector 6 frame" by simp
  note t = short_source_fails[OF h1, of example_detector 6]
  show ?thesis
    by (intro conjI h1 f0 f1 t[THEN conjunct1] t[THEN conjunct2, THEN mp, OF h2])
qed

text \<open>
  C8. One frame with \<open>td = box(0, 0, 10, 10)\<close>, \<open>ct = box(5, 5, 15, 15)\<close> and
  \<open>pm\<close> absent: the closeness of \<open>td_ct\<close> is \<open>0.25\<close>, the intersection area
  \<open>25\<close> over the smaller area \<open>100\<close>, and that of \<open>td_pm\<close> and \<open>ct_pm\<close> is
  \<open>0\<close>.
\<close>

theorem closeness_of_example:
  "column_of (closeness [''td'' \<mapsto> [Box 0 0 10 10 c1 k1], ''ct'' \<mapsto> [Box 5 5 15 15 c2 k2],
       ''pm'' \<mapsto> [Absent]] 1) ''td_ct'' = Some [1 / 4] \<and>
   column_of (closeness [''td'' \<mapsto> [Box 0 0 10 10 c1 k1], ''ct'' \<mapsto> [Box 5 5 15 15 c2 k2],
       ''pm'' \<mapsto> [Absent]] 1) ''td_pm'' = Some [0] \<and>
   column_of (closeness [''td'' \<mapsto> [Box 0 0 10 10 c1 k1], ''ct'' \<mapsto> [Box 5 5 15 15 c2 k2],
       ''pm'' \<mapsto> [Absent]] 1) ''ct_pm'' = Some [0] \<and>
   intersection_area (Box 0 0 10 10 c1 k1) (Box 5 5 15 15 c2 k2) = 25 \<and>
   min (area (Box 0 0 10 10 c1 k1)) (area (Box 5 5 15 15 c2 k2)) = 100"
  by (simp add: column_of_def closeness_def ebind_def get_def dd_get_def dd_append_def
        niou_def is_present_def area_def intersection_area_def)

text \<open>
  C9, as stated, fails in two ways. A series without a run has \<open>total_time = None\<close>,
  while the sum over its runs is \<open>0\<close>: so at two frames per second for \<open>[F]\<close>.
  And in float arithmetic the product need not be the sum of the products: at ten
  frames per second the series \<open>[T, F, T, T, T, T, T]\<close> has
  \<open>total_time = 6 * 0.1 = 0.6000000000000001\<close>, while the sum of the run durations
  is \<open>1 * 0.1 + 5 * 0.1 = 0.6\<close>.
\<close>

theorem total_time_differs_from_sum_of_run_durations:
  "int_div_float 1 (Finite 2) = Inr (Finite (1 / 2)) \<and>
   true_runs [False] = [] \<and>
   map_option total_time (entry_of (interactions_statistics (Finite 2)
       [(''td_ct'', [False])]) ''td_ct'') = Some PyNone \<and>
   sum_of_run_durations (Finite (1 / 2)) (true_runs [False]) = Inr (Finite 0) \<and>
   int_mul_float (count_list [False] True) (Finite (1 / 2)) = Inr (Finite 0) \<and>
   int_div_float 1 (Finite 10) = Inr (Finite (3602879701896397 / 36028797018963968)) \<and>
   true_runs [True, False, True, True, True, True, True] = [1, 5] \<and>
   map_option total_time (entry_of (interactions_statistics (Finite 10)
       [(''td_ct'', [True, False, True, True, True, True, True])]) ''td_ct'')
     = Some (Val (Finite (5404319552844596 / 9007199254740992))) \<and>
   sum_of_run_durations (Finite (3602879701896397 / 36028797018963968))
       (true_runs [True, False, True, True, True, True, True])
     = Inr (Finite (5404319552844595 / 9007199254740992)) \<and>
   Finite (5404319552844596 / 9007199254740992) \<noteq> Finite (5404319552844595 / 9007199254740992)"
  by code_simp

text \<open>
  C9, amended. For every series the number of \<open>True\<close> entries is the sum of the
  lengths of its runs. When the series has at least one run, \<open>total_time\<close> is (the
  sum of the run lengths) times the frame duration, one float product; when it has
  none, \<open>total_time\<close> is \<open>None\<close>.
\<close>

theorem total_time_of_run_lengths:
  assumes "int_div_float 1 fps = Inr frame_time"
    and "distinct (map fst items)"
    and "fst ` set items \<subseteq> pair_keys"
    and "\<forall>xs \<in> snd ` set items. length xs < 2 ^ 63"
    and "(key, series) \<in> set items"
  shows "count_list series True = sum_list (true_runs series) \<and>
     (\<exists>statistics entry.
       interactions_statistics fps items = Inr statistics \<and> statistics key = Some entry \<and>
       (if true_runs series = [] then total_time entry = PyNone
        else \<exists>total. int_mul_float (sum_list (true_runs series)) frame_time = Inr total \<and>
               total_time entry = Val total))"
proof -
  have cnt: "count_list series True = sum_list (true_runs series)"
    by (simp add: true_runs_def sum_run_lengths)
  obtain statistics entry where st:
    "interactions_statistics fps items = Inr statistics" "statistics key = Some entry"
    "interaction_metrics frame_time series = Inr entry"
    using interactions_statistics_entry[OF assms] by blast
  have len: "length series < 2 ^ 63" using assms(4,5) by force
  have "if true_runs series = [] then total_time entry = PyNone
        else \<exists>total. int_mul_float (sum_list (true_runs series)) frame_time = Inr total \<and>
               total_time entry = Val total"
  proof (cases "true_runs series = []")
    case True
    have "entry = none_entry"
      using interaction_metrics_none[OF True, of frame_time] st(3) by simp
    then show ?thesis using True by (simp add: none_entry_def)
  next
    case False
    from interaction_metrics_runs[OF False len, of frame_time] st(3)
    obtain total where
      "int_mul_float (count_list series True) frame_time = Inr total" "total_time entry = Val total"
      by auto
    then show ?thesis using False cnt by auto
  qed
  with st(1,2) cnt show ?thesis by blast
qed

theorem total_time_of_run_lengths_witness:
  "int_div_float 1 (Finite 10) = Inr (Finite (3602879701896397 / 36028797018963968)) \<and>
   true_runs [True, False, True, True, True, True, True] = [1, 5] \<and>
   true_runs [False] = [] \<and>
   count_list [True, False, True, True, True, True, True] True
     = sum_list (true_runs [True, False, True, True, True, True, True]) \<and>
   (\<exists>statistics entry total.
       interactions_statistics (Finite 10)
         [(''td_ct'', [True, False, True, True, True, True, True]), (''td_pm'', [False])]
         = Inr statistics \<and>
       statistics ''td_ct'' = Some entry \<and>
       int_mul_float (sum_list (true_runs [True, False, True, True, True, True, True]))
         (Finite (3602879701896397 / 36028797018963968)) = Inr total \<and>
       total_time entry = Val total) \<and>
   count_list [False] True = sum_list (true_runs [False]) \<and>
   (\<exists>statistics entry.
       interactions_statistics (Finite 10)
         [(''td_ct'', [True, False, True, True, True, True, True]), (''td_pm'', [False])]
         = Inr statistics \<and>
       statistics ''td_pm'' = Some entry \<and> total_time entry = PyNone)"
proof -
  have h1: "int_div_float 1 (Finite 10) = Inr (Finite (3602879701896397 / 36028797018963968))"
    by code_simp
  have h2: "distinct (map fst
      [(''td_ct'', [True, False, True, True, True, True, True]), (''td_pm'', [False])])"
    by simp
  have h3: "fst ` set [(''td_ct'', [True, False, True, True, True, True, True]), (''td_pm'', [False])]
      \<subseteq> pair_keys"
    by (simp add: pair_keys_def)
  have h4: "\<forall>xs \<in> snd `
      set [(''td_ct'', [True, False, True, True, True, True, True]), (''td_pm'', [False])].
      length xs < 2 ^ 63"
    by simp
  have h5: "(''td_ct'', [True, False, True, True, True, True, True])
      \<in> set [(''td_ct'', [True, False, True, True, True, True, True]), (''td_pm'', [False])]"
    by simp
  have h5': "(''td_pm'', [False])
      \<in> set [(''td_ct'', [True, False, True, True, True, True, True]), (''td_pm'', [False])]"
    by simp
  have r: "true_runs [True, False, True, True, True, True, True] = [1, 5]"
    by (simp add: true_runs_def)
  have r': "true_runs [False] = []"
    by (simp add: true_runs_def)
  note t = total_time_of_run_lengths[OF h1 h2 h3 h4 h5]
  note t' = total_time_of_run_lengths[OF h1 h2 h3 h4 h5']
  have a: "\<exists>statistics entry total.
       interactions_statistics (Finite 10)
         [(''td_ct'', [True, False, True, True, True, True, True]), (''td_pm'', [False])]
         = Inr statistics \<and>
       statistics ''td_ct'' = Some entry \<and>
       int_mul_float (sum_list (true_runs [True, False, True, True, True, True, True]))
         (Finite (3602879701896397 / 36028797018963968)) = Inr total \<and>
       total_time entry = Val total"
    using t[THEN conjunct2] unfolding r by auto
  have b: "\<exists>statistics entry.
       interactions_statistics (Finite 10)
         [(''td_ct'', [True, False, True, True, True, True, True]), (''td_pm'', [False])]
         = Inr statistics \<and>
       statistics ''td_pm'' = Some entry \<and> total_time entry = PyNone"
    using t'[THEN conjunct2] unfolding r' by auto
  show ?thesis
    by (intro conjI h1 r r' t[THEN conjunct1] t'[THEN conjunct1] a b)
qed

text \<open>
  C10. When the input has a key other than the three pair keys, the call raises
  \<open>KeyError\<close> for such a key and returns no statistics.
\<close>

theorem unknown_key_raises_key_error:
  assumes "int_div_float 1 fps = Inr frame_time"
    and "\<forall>xs \<in> snd ` set items. length xs < 2 ^ 63"
    and "\<not> fst ` set items \<subseteq> pair_keys"
  shows "\<exists>k \<in> fst ` set items. k \<notin> pair_keys \<and>
           interactions_statistics fps items = Inl (KeyError k)"
proof -
  have "\<forall>xs \<in> snd ` set items. \<exists>e. interaction_metrics frame_time xs = Inr e"
    using assms(2) interaction_metrics_total by blast
  moreover have "\<not> fst ` set items \<subseteq> dom initial_statistics"
    using assms(3) by (simp add: dom_initial_statistics)
  ultimately obtain k where "k \<in> fst ` set items" "k \<notin> dom initial_statistics"
      "statistics_loop frame_time items initial_statistics = Inl (KeyError k)"
    using statistics_loop_key_error[of items frame_time initial_statistics] by blast
  then show ?thesis
    using assms(1) by (auto simp: interactions_statistics_def ebind_def dom_initial_statistics)
qed

theorem unknown_key_raises_key_error_witness:
  "int_div_float 1 (Finite 2) = Inr (Finite (1 / 2)) \<and>
   \<not> fst ` set [(''td_ct'', [True]), (''td_xx'', [False])] \<subseteq> pair_keys \<and>
   (\<exists>k \<in> fst ` set [(''td_ct'', [True]), (''td_xx'', [False])]. k \<notin> pair_keys \<and>
      interactions_statistics (Finite 2) [(''td_ct'', [True]), (''td_xx'', [False])]
        = Inl (KeyError k))"
proof -
  have h1: "int_div_float 1 (Finite 2) = Inr (Finite (1 / 2))" by code_simp
  have h2: "\<forall>xs \<in> snd ` set [(''td_ct'', [True]), (''td_xx'', [False])]. length xs < 2 ^ 63"
    by simp
  have h3: "\<not> fst ` set [(''td_ct'', [True]), (''td_xx'', [False])] \<subseteq> pair_keys"
    by (simp add: pair_keys_def)
  show ?thesis
    by (intro conjI h1 h3 unknown_key_raises_key_error[OF h1 h2 h3])
qed

end
